theory Spec2Isabelle
  imports Main "HOL-Library.Sublist" "HOL-Library.FSet"
begin

section \<open>Python strings\<close>

text \<open>
  A Python \<^verbatim>\<open>str\<close> is modelled as a \<^typ>\<open>string\<close>: one \<^typ>\<open>char\<close> per code point, for the
  code points below 256. On that range \<^verbatim>\<open>str.isspace\<close>, the regular expression classes
  \<^verbatim>\<open>\s\<close> and \<^verbatim>\<open>\S\<close>, and \<^verbatim>\<open>str.lower\<close> are the tables below.
\<close>

definition is_space :: "char \<Rightarrow> bool" where
  "is_space c = ((of_char c :: nat) \<in> {9, 10, 11, 12, 13, 28, 29, 30, 31, 32, 133, 160})"

definition lower_char :: "char \<Rightarrow> char" where
  "lower_char c =
     (let n = (of_char c :: nat)
      in if (65 \<le> n \<and> n \<le> 90) \<or> (192 \<le> n \<and> n \<le> 222 \<and> n \<noteq> 215)
         then char_of (n + 32) else c)"

definition str_lower :: "string \<Rightarrow> string" where
  "str_lower s = map lower_char s"

definition str_strip :: "string \<Rightarrow> string" where
  "str_strip s = rev (dropWhile is_space (rev (dropWhile is_space s)))"

text \<open>\<^verbatim>\<open>a in b\<close> on strings is \<^term>\<open>sublist a b\<close>: \<open>a\<close> occurs in \<open>b\<close> as a contiguous block.\<close>

text \<open>
  \<^verbatim>\<open>s.split(sep)\<close> scans from the left, cuts at every occurrence of \<open>sep\<close> that does not
  overlap the previous cut, and always returns at least one piece. \<open>cur\<close> is the piece
  being collected.
\<close>

function split_acc :: "string \<Rightarrow> string \<Rightarrow> string \<Rightarrow> string list" where
  "split_acc sep cur [] = [cur]"
| "split_acc sep cur (c # cs) =
     (if sep \<noteq> [] \<and> prefix sep (c # cs)
      then cur # split_acc sep [] (drop (length sep) (c # cs))
      else split_acc sep (cur @ [c]) cs)"
  by pat_completeness auto
termination
  by (relation "measure (\<lambda>(sep, cur, s). length s)") auto

text \<open>
  \<^verbatim>\<open>s.replace(old, new)\<close> replaces the occurrences of \<open>old\<close> from the left, without
  overlap. With an empty \<open>old\<close> Python puts \<open>new\<close> before every character and at the end.
\<close>

function replace_ne :: "string \<Rightarrow> string \<Rightarrow> string \<Rightarrow> string" where
  "replace_ne old new [] = []"
| "replace_ne old new (c # cs) =
     (if old \<noteq> [] \<and> prefix old (c # cs)
      then new @ replace_ne old new (drop (length old) (c # cs))
      else c # replace_ne old new cs)"
  by pat_completeness auto
termination
  by (relation "measure (\<lambda>(old, new, s). length s)") auto

definition str_replace :: "string \<Rightarrow> string \<Rightarrow> string \<Rightarrow> string" where
  "str_replace s old new =
     (if old = [] then new @ concat (map (\<lambda>c. c # new) s) else replace_ne old new s)"

section \<open>Exceptions, outcomes and effects\<close>

text \<open>
  An exception is its class and the text \<^verbatim>\<open>str(e)\<close>. Every class listed derives from
  \<^verbatim>\<open>Exception\<close>. A call that mutates an object either returns or raises, and in both
  cases leaves a state behind: \<open>Raised e s\<close> is the exception \<open>e\<close> with the state at the
  moment of the raise. What a function does to the outside is a list of effects in the
  order they happen: a shell command spawned, \<open>log_and_print_online\<close> with one argument
  (a text) or with two (a role and a text), \<open>print\<close>, and the termination of the child's
  process group.
\<close>

datatype exn_class =
    RuntimeError | AttributeError | KeyError | IndexError | ValueError | AssertionError
  | CalledProcessError | OSError | UnicodeDecodeError | OtherException

datatype exn = Exn (exn_class: exn_class) (exn_text: string)

datatype 'a outcome = Raised exn 'a | Returned 'a

datatype effect = Shell string | Log string | LogRole string string | Print string | KillGroup

definition str_split :: "string \<Rightarrow> string \<Rightarrow> exn + string list" where
  "str_split s sep =
     (if sep = [] then Inl (Exn ValueError ''empty separator'') else Inr (split_acc sep [] s))"

section \<open>chat\_chain.py: the self improvement of the task prompt\<close>

definition INFO :: string where
  "INFO = ''<INFO>''"

definition self_task_improve_prompt :: "string \<Rightarrow> string" where
  \<open>self_task_improve_prompt task_prompt =
     ''I will give you a short description of a software design requirement, \<newline>'' @
     ''please rewrite it into a detailed prompt that can make large language model know how to make this software better based this prompt,\<newline>'' @
     ''the prompt should ensure LLMs build a software that can be run correctly, which is the most import part you need to consider.\<newline>'' @
     ''remember that the revised prompt should not contain more than 200 words, \<newline>'' @
     ''here is the short description:"'' @ task_prompt @ ''". \<newline>'' @
     ''If the revised prompt is revised_version_of_the_description, \<newline>'' @
     ''then you should return a message in a format like "<INFO> revised_version_of_the_description", do not return messages in other formats.''\<close>

text \<open>
  \<^verbatim>\<open>assistant_response.msg.content.split("<INFO>")[-1].lower().strip()\<close>: the last piece of
  the split, in lower case, without the white space at its two ends.
\<close>

definition revised_of :: "string \<Rightarrow> exn + string" where
  "revised_of content =
     (case str_split content INFO of
        Inl e \<Rightarrow> Inl e
      | Inr parts \<Rightarrow>
          (if parts = [] then Inl (Exn IndexError ''list index out of range'')
           else Inr (str_strip (str_lower (last parts)))))"

text \<open>
  The dialogue session (\<open>RolePlaying\<close>, \<open>init_chat\<close>, \<open>step\<close>) is outside this repository's
  two files: \<open>role_play\<close> takes the seed prompt and gives the content of the assistant's
  response, or the exception the session raised. The result is the returned revised
  prompt with the two log calls, in order.
\<close>

definition self_task_improve ::
  "(string \<Rightarrow> exn + string) \<Rightarrow> string \<Rightarrow> exn + (string \<times> effect list)" where
  "self_task_improve role_play task_prompt =
     (case role_play (self_task_improve_prompt task_prompt) of
        Inl e \<Rightarrow> Inl e
      | Inr content \<Rightarrow>
          (case revised_of content of
             Inl e \<Rightarrow> Inl e
           | Inr revised_task_prompt \<Rightarrow>
               Inr (revised_task_prompt,
                    [LogRole ''Prompt Engineer'' content,
                     Log (''**[Task Prompt Self Improvement]**\<newline>**Original Task Prompt**: '' @ task_prompt @
                          ''\<newline>**Improved Task Prompt**: '' @ revised_task_prompt)])))"

text \<open>A dialogue session that answers every prompt with the same text.\<close>

definition canned_session :: "string \<Rightarrow> string \<Rightarrow> exn + string" where
  "canned_session reply prompt = Inr reply"

section \<open>chat\_env.py: installing missing modules\<close>

text \<open>
  \<^verbatim>\<open>re.finditer(r"No module named '(\S+)'", test_reports, re.DOTALL)\<close>. At a position
  where the text starts with \<^verbatim>\<open>No module named '\<close>, the greedy \<^verbatim>\<open>\S+\<close> first takes the whole
  run of characters that are not white space and then gives characters back until the
  next one is a quote: the group ends before the last quote of the run that has at least
  one character in front of it. \<open>match_module_at\<close> gives the group and the length of the
  whole match. The search goes on after the end of a match, and one character further
  where there is none.
\<close>

definition QUOTE :: char where
  "QUOTE = CHR 0x27"

definition NO_MODULE :: string where
  "NO_MODULE = ''No module named '' @ [QUOTE]"

definition match_module_at :: "string \<Rightarrow> (string \<times> nat) option" where
  "match_module_at s =
     (if prefix NO_MODULE s
      then (let run = takeWhile (\<lambda>c. \<not> is_space c) (drop (length NO_MODULE) s);
                js = filter (\<lambda>j. run ! j = QUOTE) [1..<length run]
            in if js = [] then None
               else Some (take (last js) run, length NO_MODULE + last js + 1))
      else None)"

function finditer_modules :: "string \<Rightarrow> string list" where
  "finditer_modules [] = []"
| "finditer_modules (c # cs) =
     (case match_module_at (c # cs) of
        Some (module, n) \<Rightarrow> module # finditer_modules (drop n (c # cs))
      | None \<Rightarrow> finditer_modules cs)"
  by pat_completeness auto
termination
  by (relation "measure length") (auto simp: match_module_at_def Let_def split: if_splits)

text \<open>
  The loop body: spawn \<^verbatim>\<open>pip install <module>\<close> through the shell, wait for it, log it.
  \<open>shell i cmd\<close> is the exception that spawning \<open>cmd\<close> as the \<open>i\<close>-th command raises, if
  any; an exception leaves the loop and the function.
\<close>

fun install_all :: "(nat \<Rightarrow> string \<Rightarrow> exn option) \<Rightarrow> nat \<Rightarrow> string list \<Rightarrow> effect list outcome" where
  "install_all shell i [] = Returned []"
| "install_all shell i (module # modules) =
     (let cmd = ''pip install '' @ module
      in case shell i cmd of
           Some e \<Rightarrow> Raised e []
         | None \<Rightarrow>
             (let done = [Shell cmd, Log (''**[CMD Execute]**\<newline>\<newline>[CMD] pip install '' @ module)]
              in case install_all shell (Suc i) modules of
                   Raised e effs \<Rightarrow> Raised e (done @ effs)
                 | Returned effs \<Rightarrow> Returned (done @ effs)))"

definition fix_module_not_found_error ::
  "(nat \<Rightarrow> string \<Rightarrow> exn option) \<Rightarrow> string \<Rightarrow> effect list outcome" where
  "fix_module_not_found_error shell test_reports =
     (if sublist ''ModuleNotFoundError'' test_reports
      then install_all shell 0 (finditer_modules test_reports)
      else Returned [])"

text \<open>The effects left behind by a call, and the shell commands among them.\<close>

fun effects_of :: "effect list outcome \<Rightarrow> effect list" where
  "effects_of (Raised e effs) = effs"
| "effects_of (Returned effs) = effs"

fun shell_commands :: "effect list \<Rightarrow> string list" where
  "shell_commands [] = []"
| "shell_commands (Shell cmd # effs) = cmd # shell_commands effs"
| "shell_commands (eff # effs) = shell_commands effs"

text \<open>A shell in which every spawn succeeds.\<close>

definition shell_ok :: "nat \<Rightarrow> string \<Rightarrow> exn option" where
  "shell_ok i cmd = None"

text \<open>
  A test report with one line \<^verbatim>\<open>ModuleNotFoundError: No module named '<module>'\<close> for each
  entry of a list of module names, and the names such a line can carry: not empty, no
  white space, no quote.
\<close>

definition report_line :: "string \<Rightarrow> string" where
  "report_line module = ''ModuleNotFoundError: '' @ NO_MODULE @ module @ [QUOTE, CHR 0x0A]"

definition report_of :: "string list \<Rightarrow> string" where
  "report_of modules = concat (map report_line modules)"

definition plain_name :: "string \<Rightarrow> bool" where
  "plain_name m = (m \<noteq> [] \<and> list_all (\<lambda>c. \<not> is_space c \<and> c \<noteq> QUOTE) m)"

section \<open>chat\_env.py: the environment\<close>

record chat_env_config =
  clear_structure :: bool
  brainstorming :: bool
  gui_design :: bool
  git_management :: bool

text \<open>
  Modelled from the spec: the class \<open>Roster\<close> of \<open>chatdev/roster.py\<close>, which is not among
  the source files. The spec gives it as the set of recruited participant names, with a
  recruitment that is a no-op with an "already exists" notice, not an error, when the name
  is already present.
\<close>

record roster =
  agents :: "string fset"

text \<open>Modelled from the spec: the roster of a new environment, with nobody recruited.\<close>

definition Roster_init :: roster where
  "Roster_init = \<lparr>agents = {||}\<rparr>"

text \<open>
  Modelled from the spec: \<open>Roster._recruit\<close>, the recruitment of one name into the set,
  a no-op with a notice for a name already there.
\<close>

definition Roster_recruit :: "roster \<Rightarrow> string \<Rightarrow> roster \<times> effect list" where
  "Roster_recruit r agent_name =
     (if agent_name |\<in>| agents r then (r, [Print (agent_name @ '' already exists'')])
      else (r\<lparr>agents := finsert agent_name (agents r)\<rparr>, []))"

text \<open>
  The environment object. \<open>Codes\<close> and \<open>Documents\<close> are classes outside the two files; of the
  three containers the model keeps the \<open>directory\<close> attribute that \<open>set_directory\<close> assigns,
  unset until then. \<open>env_dict\<close> is the dictionary of scratch fields.
\<close>

record chat_env =
  config :: chat_env_config
  roster :: roster
  codes_directory :: "string option"
  requirements_directory :: "string option"
  manuals_directory :: "string option"
  env_dict :: "string \<rightharpoonup> string"

definition ChatEnv_init :: "chat_env_config \<Rightarrow> chat_env" where
  "ChatEnv_init chat_env_config =
     \<lparr>config = chat_env_config,
      roster = Roster_init,
      codes_directory = None,
      requirements_directory = None,
      manuals_directory = None,
      env_dict = [''directory'' \<mapsto> [], ''task_prompt'' \<mapsto> [], ''modality'' \<mapsto> [],
                  ''ideas'' \<mapsto> [], ''language'' \<mapsto> [], ''review_comments'' \<mapsto> [],
                  ''error_summary'' \<mapsto> [], ''test_reports'' \<mapsto> []]\<rparr>"

definition key_error :: "string \<Rightarrow> exn" where
  "key_error k = Exn KeyError ([QUOTE] @ k @ [QUOTE])"

subsection \<open>set\_directory\<close>

text \<open>
  The file system belongs to the operating system: its state is a type parameter and the
  five calls of \<open>os\<close> and \<open>shutil\<close> that \<open>set_directory\<close> makes are parameters, each free
  to raise. \<open>timestamp\<close> is \<^verbatim>\<open>time.strftime("%Y%m%d%H%M%S", time.localtime())\<close>.
\<close>

record 'fs os_calls =
  path_exists :: "'fs \<Rightarrow> string \<Rightarrow> bool"
  listdir :: "'fs \<Rightarrow> string \<Rightarrow> exn + string list"
  copytree :: "'fs \<Rightarrow> string \<Rightarrow> string \<Rightarrow> 'fs outcome"
  rmtree :: "'fs \<Rightarrow> string \<Rightarrow> 'fs outcome"
  mkdir :: "'fs \<Rightarrow> string \<Rightarrow> 'fs outcome"

text \<open>The second \<^verbatim>\<open>if\<close> of \<open>set_directory\<close>: with \<open>clear_structure\<close>, an empty directory.\<close>

definition clear_directory ::
  "'fs os_calls \<Rightarrow> chat_env \<Rightarrow> 'fs \<Rightarrow> effect list \<Rightarrow> string \<Rightarrow> (chat_env \<times> 'fs \<times> effect list) outcome" where
  "clear_directory os env fs effs directory =
     (if clear_structure (config env)
      then (if path_exists os fs directory
            then (case rmtree os fs directory of
                    Raised e fs1 \<Rightarrow> Raised e (env, fs1, effs)
                  | Returned fs1 \<Rightarrow>
                      (case mkdir os fs1 directory of
                         Raised e fs2 \<Rightarrow> Raised e (env, fs2, effs)
                       | Returned fs2 \<Rightarrow>
                           Returned (env, fs2, effs @ [Print (directory @ '' Created'')])))
            else (case mkdir os fs directory of
                    Raised e fs1 \<Rightarrow> Raised e (env, fs1, effs)
                  | Returned fs1 \<Rightarrow> Returned (env, fs1, effs)))
      else Returned (env, fs, effs))"

text \<open>The first \<^verbatim>\<open>if\<close>: a directory that exists and is not empty is copied aside first.\<close>

definition backup_directory ::
  "'fs os_calls \<Rightarrow> string \<Rightarrow> chat_env \<Rightarrow> 'fs \<Rightarrow> string \<Rightarrow> (chat_env \<times> 'fs \<times> effect list) outcome" where
  "backup_directory os timestamp env fs directory =
     (if path_exists os fs directory
      then (case listdir os fs directory of
              Inl e \<Rightarrow> Raised e (env, fs, [])
            | Inr names \<Rightarrow>
                (if length names > 0
                 then (let new_directory = directory @ ''.'' @ timestamp
                       in case copytree os fs directory new_directory of
                            Raised e fs1 \<Rightarrow> Raised e (env, fs1, [])
                          | Returned fs1 \<Rightarrow>
                              clear_directory os env fs1
                                [Print (directory @ '' Copied to '' @ new_directory)] directory)
                 else clear_directory os env fs [] directory))
      else clear_directory os env fs [] directory)"

text \<open>
  The \<^verbatim>\<open>assert\<close> comes first: it raises \<open>AssertionError\<close> before anything is assigned.
\<close>

definition set_directory ::
  "'fs os_calls \<Rightarrow> string \<Rightarrow> chat_env \<Rightarrow> 'fs \<Rightarrow> string \<Rightarrow> (chat_env \<times> 'fs \<times> effect list) outcome" where
  "set_directory os timestamp env fs directory =
     (case env_dict env ''directory'' of
        None \<Rightarrow> Raised (key_error ''directory'') (env, fs, [])
      | Some bound \<Rightarrow>
          (if length bound \<noteq> 0 then Raised (Exn AssertionError []) (env, fs, [])
           else backup_directory os timestamp
                  (env\<lparr>env_dict := (env_dict env)(''directory'' \<mapsto> directory),
                       codes_directory := Some directory,
                       requirements_directory := Some directory,
                       manuals_directory := Some directory\<rparr>)
                  fs directory))"

text \<open>The state an outcome leaves behind, and the exception if it is one.\<close>

fun state_of :: "'a outcome \<Rightarrow> 'a" where
  "state_of (Raised e s) = s"
| "state_of (Returned s) = s"

fun raised :: "'a outcome \<Rightarrow> exn option" where
  "raised (Raised e s) = Some e"
| "raised (Returned s) = None"

text \<open>An operating system whose calls all succeed, on a file system with no state.\<close>

definition os_quiet :: "unit os_calls" where
  "os_quiet =
     \<lparr>path_exists = (\<lambda>fs p. False),
      listdir = (\<lambda>fs p. Inr []),
      copytree = (\<lambda>fs p q. Returned fs),
      rmtree = (\<lambda>fs p. Returned fs),
      mkdir = (\<lambda>fs p. Returned fs)\<rparr>"

definition config_plain :: chat_env_config where
  "config_plain = \<lparr>clear_structure = False, brainstorming = False, gui_design = False,
                     git_management = False\<rparr>"

subsection \<open>recruit\<close>

definition recruit :: "chat_env \<Rightarrow> string \<Rightarrow> chat_env \<times> effect list" where
  "recruit env agent_name =
     (case Roster_recruit (roster env) agent_name of
        (r, effs) \<Rightarrow> (env\<lparr>roster := r\<rparr>, effs))"

subsection \<open>exist\_bugs\<close>

text \<open>
  What the operating system does during one call of \<open>exist_bugs\<close>: whether
  \<open>subprocess.Popen\<close> raises; the child's status when the three seconds of
  \<^verbatim>\<open>time.sleep(3)\<close> are over (\<open>None\<close> while it is still running, its exit code otherwise);
  whether \<open>os.getpgid\<close> or \<open>os.killpg\<close> raises; and what
  \<^verbatim>\<open>process.stderr.read().decode("utf-8")\<close> gives, a text or the exception of the decoding.
  The read waits for the end of the child's error output; a run in which that end never
  comes returns nothing and is not among these.
\<close>

record run_world =
  spawn_raises :: "exn option"
  status_after_sleep :: "int option"
  kill_raises :: "exn option"
  stderr_text :: "exn + string"

text \<open>
  The \<open>Popen\<close> object. Its attribute \<open>returncode\<close> is \<open>None\<close> when the object is created and
  stays so until \<open>poll\<close> (or \<open>wait\<close>) finds that the child has ended and stores the exit
  code there.
\<close>

record popen =
  returncode :: "int option"

definition Popen_new :: popen where
  "Popen_new = \<lparr>returncode = None\<rparr>"

definition poll :: "int option \<Rightarrow> popen \<Rightarrow> int option \<times> popen" where
  "poll os_status process =
     (case returncode process of
        Some c \<Rightarrow> (Some c, process)
      | None \<Rightarrow> (os_status, process\<lparr>returncode := os_status\<rparr>))"

definition success_info :: string where
  "success_info = ''The software run successfully without errors.''"

text \<open>The two \<^verbatim>\<open>except\<close> clauses, in their order.\<close>

definition handle_exn :: "exn \<Rightarrow> bool \<times> string" where
  "handle_exn e =
     (if exn_class e = CalledProcessError then (True, ''Error: '' @ exn_text e)
      else (True, ''An error occurred: '' @ exn_text e))"

text \<open>
  From \<^verbatim>\<open>if return_code == 0\<close> on. A captured text with no traceback in it leaves the
  \<^verbatim>\<open>try\<close> block and reaches the last \<^verbatim>\<open>return\<close> of the function.
\<close>

definition classify_run ::
  "string \<Rightarrow> run_world \<Rightarrow> int option \<Rightarrow> effect list \<Rightarrow> (exn + bool \<times> string) \<times> effect list" where
  "classify_run directory w return_code effs =
     (if return_code = Some 0 then (Inr (False, success_info), effs)
      else (case stderr_text w of
              Inl e \<Rightarrow> (Inr (handle_exn e), effs)
            | Inr error_output \<Rightarrow>
                (if error_output \<noteq> []
                 then (if sublist (str_lower ''Traceback'') (str_lower error_output)
                       then (Inr (True, str_replace error_output (directory @ ''/'') []), effs)
                       else (Inr (False, success_info), effs))
                 else (Inr (False, success_info), effs))))"

text \<open>
  \<open>return_code\<close> is read from the object right after the sleep, before \<open>poll\<close> is called.
  The lookup of the directory is outside the \<^verbatim>\<open>try\<close> block.
\<close>

definition exist_bugs :: "chat_env \<Rightarrow> run_world \<Rightarrow> (exn + bool \<times> string) \<times> effect list" where
  "exist_bugs env w =
     (case env_dict env ''directory'' of
        None \<Rightarrow> (Inl (key_error ''directory''), [])
      | Some directory \<Rightarrow>
          (let command = ''cd '' @ directory @ ''; ls -l; python3 main.py;''
           in case spawn_raises w of
                Some e \<Rightarrow> (Inr (handle_exn e), [])
              | None \<Rightarrow>
                  (let process = Popen_new;
                       return_code = returncode process;
                       (polled, process1) = poll (status_after_sleep w) process
                   in if polled = None
                      then (case kill_raises w of
                              Some e \<Rightarrow> (Inr (handle_exn e), [Shell command])
                            | None \<Rightarrow>
                                classify_run directory w return_code [Shell command, KillGroup])
                      else classify_run directory w return_code [Shell command])))"

text \<open>An environment bound to a directory, and a run in which no call raises.\<close>

definition env_at :: "string \<Rightarrow> chat_env" where
  "env_at directory = (ChatEnv_init config_plain)\<lparr>env_dict :=
     (env_dict (ChatEnv_init config_plain))(''directory'' \<mapsto> directory)\<rparr>"

definition run_with :: "int option \<Rightarrow> string \<Rightarrow> run_world" where
  "run_with status err =
     \<lparr>spawn_raises = None, status_after_sleep = status, kill_raises = None,
      stderr_text = Inr err\<rparr>"

definition spawn_failure :: "exn \<Rightarrow> run_world" where
  "spawn_failure e =
     \<lparr>spawn_raises = Some e, status_after_sleep = None, kill_raises = None,
      stderr_text = Inr []\<rparr>"

section \<open>chat\_chain.py: the chain\<close>

definition check_bool :: "string \<Rightarrow> bool" where
  "check_bool s = (str_lower s = ''true'')"

text \<open>
  One entry of the chain of \<open>ChatChainConfig.json\<close>, a dictionary: a key that is absent
  is \<open>None\<close>, and reading it raises \<open>KeyError\<close>. The values have the types of the
  configuration: texts, and whole numbers for \<open>max_turn_step\<close> and \<open>cycleNum\<close>. The
  composition of a composed phase is handed to the composed phase unread, so its type is
  a parameter.
\<close>

record 'c phase_item =
  phase :: "string option"
  phaseType :: "string option"
  max_turn_step :: "int option"
  need_reflect :: "string option"
  cycleNum :: "int option"
  Composition :: "'c option"

text \<open>
  The phases are classes of \<open>chatdev.phase\<close> and \<open>chatdev.composed_phase\<close>, outside the
  two files. A simple phase is its method \<open>execute(chat_env, chat_turn_limit, need_reflect)\<close>.
  An attribute of the module \<open>chatdev.composed_phase\<close> is a value that counts as false, or
  a class: its constructor applied to the phase name, the number of cycles and the
  composition (the other arguments are the same for every step), followed by
  \<open>execute(chat_env)\<close>. Both work on the environment object they are given, so an
  exception leaves the environment as it was at the raise.
\<close>

type_synonym simple_phase = "chat_env \<Rightarrow> int \<Rightarrow> bool \<Rightarrow> chat_env outcome"

datatype 'c module_attr =
    Falsy
  | PhaseClass "string \<Rightarrow> int \<Rightarrow> 'c \<Rightarrow> chat_env \<Rightarrow> chat_env outcome"

record 'c chat_chain =
  chain :: "'c phase_item list"
  recruitments :: "string list"
  chat_turn_limit_default :: int
  chat_env :: chat_env
  phases :: "string \<rightharpoonup> simple_phase"
  compose_phase_module :: "string \<rightharpoonup> 'c module_attr"

text \<open>
  \<open>__init__\<close>, from the configuration already read: the chain, the recruitments, the
  flags of the environment, the phase instances built from \<open>PhaseConfig.json\<close> and the
  module of the composed phases.
\<close>

definition ChatChain_init ::
  "'c phase_item list \<Rightarrow> string list \<Rightarrow> chat_env_config \<Rightarrow> (string \<rightharpoonup> simple_phase) \<Rightarrow>
   (string \<rightharpoonup> 'c module_attr) \<Rightarrow> 'c chat_chain" where
  "ChatChain_init config_chain config_recruitments chat_env_config phase_instances module =
     \<lparr>chain = config_chain,
      recruitments = config_recruitments,
      chat_turn_limit_default = 10,
      chat_env = ChatEnv_init chat_env_config,
      phases = phase_instances,
      compose_phase_module = module\<rparr>"

subsection \<open>make\_recruitment\<close>

fun recruit_all :: "chat_env \<Rightarrow> string list \<Rightarrow> chat_env \<times> effect list" where
  "recruit_all env [] = (env, [])"
| "recruit_all env (employee # employees) =
     (case recruit env employee of
        (env1, effs1) \<Rightarrow>
          (case recruit_all env1 employees of
             (env2, effs2) \<Rightarrow> (env2, effs1 @ effs2)))"

definition make_recruitment :: "'c chat_chain \<Rightarrow> 'c chat_chain \<times> effect list" where
  "make_recruitment ch =
     (case recruit_all (chat_env ch) (recruitments ch) of
        (env, effs) \<Rightarrow> (ch\<lparr>chat_env := env\<rparr>, effs))"

subsection \<open>execute\_step and execute\_chain\<close>

definition phase_missing :: "string \<Rightarrow> exn" where
  "phase_missing phase_name =
     Exn RuntimeError (''Phase '' @ [QUOTE] @ phase_name @ [QUOTE] @
                       '' is not yet implemented in chatdev.phase'')"

definition compose_phase_missing :: "string \<Rightarrow> exn" where
  "compose_phase_missing phase_name =
     Exn RuntimeError (''Phase '' @ [QUOTE] @ phase_name @ [QUOTE] @
                       '' is not yet implemented in chatdev.compose_phase'')"

definition phase_type_unknown :: "string \<Rightarrow> exn" where
  "phase_type_unknown phase_type =
     Exn RuntimeError (''PhaseType '' @ [QUOTE] @ phase_type @ [QUOTE] @
                       '' is not yet implemented.'')"

text \<open>\<open>getattr\<close> with no default raises \<open>AttributeError\<close> for a name the module does not have.\<close>

definition no_attribute :: "string \<Rightarrow> exn" where
  "no_attribute phase_name =
     Exn AttributeError (''module '' @ [QUOTE] @ ''chatdev.composed_phase'' @ [QUOTE] @
                         '' has no attribute '' @ [QUOTE] @ phase_name @ [QUOTE])"

text \<open>\<^verbatim>\<open>self.chat_env = <phase>.execute(...)\<close>: the assignment happens only on return.\<close>

fun assign_env :: "'c chat_chain \<Rightarrow> chat_env outcome \<Rightarrow> 'c chat_chain outcome" where
  "assign_env ch (Returned env) = Returned (ch\<lparr>chat_env := env\<rparr>)"
| "assign_env ch (Raised e env) = Raised e (ch\<lparr>chat_env := env\<rparr>)"

definition execute_step :: "'c chat_chain \<Rightarrow> 'c phase_item \<Rightarrow> 'c chat_chain outcome" where
  "execute_step ch phase_item =
     (case phase phase_item of
        None \<Rightarrow> Raised (key_error ''phase'') ch
      | Some phase_name \<Rightarrow>
     (case phaseType phase_item of
        None \<Rightarrow> Raised (key_error ''phaseType'') ch
      | Some phase_type \<Rightarrow>
          if phase_type = ''SimplePhase'' then
            (case max_turn_step phase_item of
               None \<Rightarrow> Raised (key_error ''max_turn_step'') ch
             | Some turns \<Rightarrow>
            (case need_reflect phase_item of
               None \<Rightarrow> Raised (key_error ''need_reflect'') ch
             | Some reflect \<Rightarrow>
                 (case phases ch phase_name of
                    Some instance \<Rightarrow>
                      assign_env ch
                        (instance (chat_env ch)
                           (if turns \<le> 0 then chat_turn_limit_default ch else turns)
                           (check_bool reflect))
                  | None \<Rightarrow> Raised (phase_missing phase_name) ch)))
          else if phase_type = ''ComposedPhase'' then
            (case cycleNum phase_item of
               None \<Rightarrow> Raised (key_error ''cycleNum'') ch
             | Some cycle_num \<Rightarrow>
            (case Composition phase_item of
               None \<Rightarrow> Raised (key_error ''Composition'') ch
             | Some composition \<Rightarrow>
                 (case compose_phase_module ch phase_name of
                    None \<Rightarrow> Raised (no_attribute phase_name) ch
                  | Some Falsy \<Rightarrow> Raised (compose_phase_missing phase_name) ch
                  | Some (PhaseClass compose_phase_class) \<Rightarrow>
                      assign_env ch
                        (compose_phase_class phase_name cycle_num composition (chat_env ch)))))
          else Raised (phase_type_unknown phase_type) ch))"

fun execute_steps :: "'c chat_chain \<Rightarrow> 'c phase_item list \<Rightarrow> 'c chat_chain outcome" where
  "execute_steps ch [] = Returned ch"
| "execute_steps ch (phase_item # rest) =
     (case execute_step ch phase_item of
        Raised e ch1 \<Rightarrow> Raised e ch1
      | Returned ch1 \<Rightarrow> execute_steps ch1 rest)"

definition execute_chain :: "'c chat_chain \<Rightarrow> 'c chat_chain outcome" where
  "execute_chain ch = execute_steps ch (chain ch)"

text \<open>
  A simple phase that writes one scratch field, a chain entry for a simple phase, and a
  chain of two entries of which only the first names a phase that exists.
\<close>

definition phase_writing :: "string \<Rightarrow> string \<Rightarrow> simple_phase" where
  "phase_writing k v env turns reflect = Returned (env\<lparr>env_dict := (env_dict env)(k \<mapsto> v)\<rparr>)"

definition simple_item :: "string \<Rightarrow> int \<Rightarrow> unit phase_item" where
  "simple_item name turns =
     \<lparr>phase = Some name, phaseType = Some ''SimplePhase'', max_turn_step = Some turns,
      need_reflect = Some ''False'', cycleNum = None, Composition = None\<rparr>"

definition chain_with_bad_name :: "unit chat_chain" where
  "chain_with_bad_name =
     ChatChain_init [simple_item ''DemandAnalysis'' 3, simple_item ''Missing'' 3] []
       config_plain [''DemandAnalysis'' \<mapsto> phase_writing ''modality'' ''web''] Map.empty"

text \<open>
  A simple phase that leaves in the scratch field \<open>turns\<close> one stroke for each turn it was
  allowed, a chain that knows it under the name \<open>Probe\<close>, a chain entry for a composed
  phase, and a chain entry with a phase type of its own.
\<close>

definition phase_probe :: simple_phase where
  "phase_probe env turns reflect =
     Returned (env\<lparr>env_dict := (env_dict env)(''turns'' \<mapsto> replicate (nat turns) (CHR ''|''))\<rparr>)"

definition chain_with_probe :: "unit chat_chain" where
  "chain_with_probe =
     ChatChain_init [simple_item ''Probe'' 0] [] config_plain [''Probe'' \<mapsto> phase_probe] Map.empty"

definition composed_item :: "string \<Rightarrow> int \<Rightarrow> unit phase_item" where
  "composed_item name cycles =
     \<lparr>phase = Some name, phaseType = Some ''ComposedPhase'', max_turn_step = None,
      need_reflect = None, cycleNum = Some cycles, Composition = Some ()\<rparr>"

definition typed_item :: "string \<Rightarrow> string \<Rightarrow> unit phase_item" where
  "typed_item name phase_type =
     \<lparr>phase = Some name, phaseType = Some phase_type, max_turn_step = None,
      need_reflect = None, cycleNum = None, Composition = None\<rparr>"

section \<open>Properties of the self improvement of the task prompt\<close>

lemma split_acc_nonempty: "split_acc sep cur s \<noteq> []"
  by (induction sep cur s rule: split_acc.induct) auto

lemma split_acc_no_sep: "\<not> sublist sep s \<Longrightarrow> split_acc sep cur s = [cur @ s]"
proof (induction s arbitrary: cur)
  case Nil
  then show ?case by simp
next
  case (Cons c cs)
  then have "\<not> prefix sep (c # cs)" and "\<not> sublist sep cs"
    by (auto simp: sublist_Cons_right)
  with Cons.IH [of "cur @ [c]"] show ?case by simp
qed

lemma split_acc_at_sep: "sep \<noteq> [] \<Longrightarrow> split_acc sep cur (sep @ s) = cur # split_acc sep [] s"
  by (cases sep) simp_all

lemma INFO_nth_first: "k < 6 \<Longrightarrow> k \<noteq> 0 \<Longrightarrow> INFO ! k \<noteq> CHR ''<''"
  by (auto simp: INFO_def numeral_eq_Suc less_Suc_eq)

lemma INFO_prefix_inside:
  assumes "prefix INFO (pre @ INFO @ post)" and "pre \<noteq> []"
  shows "\<exists>pre'. pre = INFO @ pre'"
proof -
  have len: "length INFO = 6" by (simp add: INFO_def)
  have "\<not> length pre < 6"
  proof
    assume short: "length pre < 6"
    from assms(1) obtain zs where eq: "pre @ INFO @ post = INFO @ zs"
      by (auto simp: prefix_def)
    have "(pre @ INFO @ post) ! length pre = CHR ''<''"
      by (simp add: nth_append INFO_def)
    moreover have "(INFO @ zs) ! length pre = INFO ! length pre"
      using short len by (simp add: nth_append)
    ultimately have "INFO ! length pre = CHR ''<''" using eq by simp
    with INFO_nth_first [OF short] assms(2) show False by simp
  qed
  then have "length INFO \<le> length pre" using len by simp
  with assms(1) have "prefix INFO pre"
    by (metis prefix_length_prefix prefix_order.dual_order.refl prefix_append prefixI)
  then show ?thesis by (auto simp: prefix_def)
qed

lemma split_acc_last_INFO:
  "\<not> sublist INFO post \<Longrightarrow> last (split_acc INFO cur (pre @ INFO @ post)) = post"
proof (induction "length pre" arbitrary: pre cur rule: less_induct)
  case less
  have ne: "INFO \<noteq> []" by (simp add: INFO_def)
  show ?case
  proof (cases pre)
    case Nil
    have "split_acc INFO cur (INFO @ post) = cur # split_acc INFO [] post"
      using ne by (rule split_acc_at_sep)
    then show ?thesis using Nil less.prems by (simp add: split_acc_no_sep)
  next
    case (Cons c pre')
    show ?thesis
    proof (cases "prefix INFO (pre @ INFO @ post)")
      case True
      then obtain pre'' where p: "pre = INFO @ pre''"
        using INFO_prefix_inside Cons by blast
      have shorter: "length pre'' < length pre" using p ne by simp
      have "split_acc INFO cur (pre @ INFO @ post)
            = cur # split_acc INFO [] (drop (length INFO) (pre @ INFO @ post))"
        using True Cons ne by simp
      also have "drop (length INFO) (pre @ INFO @ post) = pre'' @ INFO @ post"
        using p by simp
      finally show ?thesis
        using less.hyps [OF shorter less.prems, of "[]"] by (simp add: split_acc_nonempty)
    next
      case False
      then have "split_acc INFO cur (pre @ INFO @ post)
                 = split_acc INFO (cur @ [c]) (pre' @ INFO @ post)"
        using Cons by simp
      then show ?thesis
        using less.hyps [of pre', OF _ less.prems, of "cur @ [c]"] Cons by simp
    qed
  qed
qed

lemma revised_of_no_marker:
  "\<not> sublist INFO content \<Longrightarrow> revised_of content = Inr (str_strip (str_lower content))"
  by (simp add: revised_of_def str_split_def split_acc_no_sep INFO_def [symmetric])
     (simp add: INFO_def)

lemma revised_of_after_last:
  "\<not> sublist INFO post \<Longrightarrow> revised_of (pre @ INFO @ post) = Inr (str_strip (str_lower post))"
  by (simp add: revised_of_def str_split_def split_acc_last_INFO split_acc_nonempty)
     (simp add: INFO_def)

text \<open>
  Claim C9, as the code has it: when the marker \<open><INFO>\<close> does not occur in the
  assistant's response, \<open>self_task_improve\<close> returns the whole response in lower case
  with the white space at its two ends removed; when it occurs, the text after its last
  occurrence, in lower case and stripped in the same way. No exception is raised in either
  case.
\<close>

theorem self_task_improve_revised:
  assumes "role_play (self_task_improve_prompt task_prompt) = Inr content"
  shows "(\<not> sublist INFO content \<longrightarrow>
            map_sum id fst (self_task_improve role_play task_prompt)
              = Inr (str_strip (str_lower content))) \<and>
         (\<forall>pre post. content = pre @ INFO @ post \<and> \<not> sublist INFO post \<longrightarrow>
            map_sum id fst (self_task_improve role_play task_prompt)
              = Inr (str_strip (str_lower post)))"
  using assms
  by (auto simp: self_task_improve_def revised_of_no_marker revised_of_after_last)

theorem self_task_improve_revised_witness:
  "map_sum id fst (self_task_improve (canned_session ''Sure. <INFO> Build A Game '') ''snake'')
     = Inr ''build a game'' \<and>
   map_sum id fst (self_task_improve (canned_session '' Build A Game '') ''snake'')
     = Inr ''build a game''"
proof -
  have a: "canned_session ''Sure. <INFO> Build A Game '' (self_task_improve_prompt ''snake'')
           = Inr ''Sure. <INFO> Build A Game ''"
    by (simp add: canned_session_def)
  have b: "canned_session '' Build A Game '' (self_task_improve_prompt ''snake'')
           = Inr '' Build A Game ''"
    by (simp add: canned_session_def)
  have na: "\<not> sublist INFO '' Build A Game ''" by code_simp
  have cut: "''Sure. <INFO> Build A Game '' = ''Sure. '' @ INFO @ '' Build A Game ''"
    by (simp add: INFO_def)
  have low: "str_strip (str_lower '' Build A Game '') = ''build a game''" by code_simp
  have "map_sum id fst (self_task_improve (canned_session ''Sure. <INFO> Build A Game '') ''snake'')
     = Inr (str_strip (str_lower '' Build A Game ''))"
    using self_task_improve_revised
            [of "canned_session ''Sure. <INFO> Build A Game ''" "''snake''"
                "''Sure. <INFO> Build A Game ''", OF a] cut na
    by blast
  moreover
  have "map_sum id fst (self_task_improve (canned_session '' Build A Game '') ''snake'')
     = Inr (str_strip (str_lower '' Build A Game ''))"
    using self_task_improve_revised
            [of "canned_session '' Build A Game ''" "''snake''" "'' Build A Game ''", OF b] na
    by blast
  ultimately show ?thesis by (simp only: low) 
qed

text \<open>
  Claim C9 as stated fails: the returned prompt is not exactly the text after the marker.
  For the response \<open><INFO> Build A Game\<close> the text after the marker is \<open> Build A Game\<close>,
  with a leading blank and capitals; what is returned is \<open>build a game\<close>.
\<close>

theorem self_task_improve_not_verbatim:
  "map_sum id fst (self_task_improve (canned_session ''<INFO> Build A Game'') ''snake'')
     = Inr ''build a game'' \<and>
   ''build a game'' \<noteq> '' Build A Game''"
  by code_simp

section \<open>Properties of set\_directory\<close>

lemma clear_directory_env:
  "fst (state_of (clear_directory os env fs effs directory)) = env"
  by (simp add: clear_directory_def split: outcome.splits)

lemma backup_directory_env:
  "fst (state_of (backup_directory os timestamp env fs directory)) = env"
  by (simp add: backup_directory_def Let_def clear_directory_env split: sum.splits outcome.splits)

lemma set_directory_binds:
  assumes "env_dict env ''directory'' = Some []"
  shows "env_dict (fst (state_of (set_directory os timestamp env fs directory))) ''directory''
         = Some directory"
  using assms by (simp add: set_directory_def backup_directory_env)

lemma set_directory_bound:
  assumes "env_dict env ''directory'' = Some bound" and "bound \<noteq> []"
  shows "set_directory os timestamp env fs directory = Raised (Exn AssertionError []) (env, fs, [])"
  using assms by (simp add: set_directory_def)

text \<open>
  Claim C5: once \<open>set_directory\<close> has bound a directory that is not the empty text, every
  further call, whatever the directory, the time and the file system, raises the
  \<open>AssertionError\<close> of the emptiness assertion and leaves the environment and the file
  system as they were: the directory bound first stays bound.
\<close>

theorem set_directory_set_once:
  assumes "env_dict env ''directory'' = Some []"
    and "first \<noteq> []"
    and "state_of (set_directory os timestamp env fs first) = (env1, fs1, effs1)"
  shows "set_directory os' timestamp' env1 fs2 second
           = Raised (Exn AssertionError []) (env1, fs2, []) \<and>
         env_dict env1 ''directory'' = Some first"
proof -
  have "env_dict env1 ''directory'' = Some first"
    using set_directory_binds [OF assms(1), of os timestamp fs first] assms(3) by simp
  then show ?thesis using assms(2) by (simp add: set_directory_bound)
qed

theorem set_directory_set_once_witness:
  "set_directory os_quiet ''20240102'' 
     (fst (state_of (set_directory os_quiet ''20240101'' (ChatEnv_init config_plain) () ''WareHouse/snake'')))
     () ''WareHouse/other''
   = Raised (Exn AssertionError [])
       (fst (state_of (set_directory os_quiet ''20240101'' (ChatEnv_init config_plain) () ''WareHouse/snake'')), (), []) \<and>
   env_dict (fst (state_of (set_directory os_quiet ''20240101'' (ChatEnv_init config_plain) () ''WareHouse/snake'')))
     ''directory'' = Some ''WareHouse/snake''"
proof -
  have a: "env_dict (ChatEnv_init config_plain) ''directory'' = Some []"
    by (simp add: ChatEnv_init_def)
  have b: "''WareHouse/snake'' \<noteq> []" by simp
  obtain env1 fs1 effs1 where
    c: "state_of (set_directory os_quiet ''20240101'' (ChatEnv_init config_plain) () ''WareHouse/snake'')
        = (env1, fs1, effs1)"
    by (metis prod_cases3)
  from set_directory_set_once [OF a b c, of os_quiet "''20240102''" "()" "''WareHouse/other''"] c
  show ?thesis by simp
qed

section \<open>Properties of the recruitment\<close>

lemma recruit_agents:
  "agents (roster (fst (recruit env name))) = finsert name (agents (roster env))"
  by (auto simp: recruit_def Roster_recruit_def)

lemma recruit_all_agents:
  "agents (roster (fst (recruit_all env names)))
     = agents (roster env) |\<union>| fset_of_list names"
proof (induction names arbitrary: env)
  case Nil
  then show ?case by simp
next
  case (Cons n names)
  obtain env1 effs1 where r: "recruit env n = (env1, effs1)" by (cases "recruit env n")
  obtain env2 effs2 where ra: "recruit_all env1 names = (env2, effs2)"
    by (cases "recruit_all env1 names")
  have "agents (roster env1) = finsert n (agents (roster env))"
    using recruit_agents [of env n] r by simp
  moreover have "agents (roster env2) = agents (roster env1) |\<union>| fset_of_list names"
    using Cons.IH [of env1] ra by simp
  ultimately show ?case using r ra by auto
qed

text \<open>
  Claim C8: recruiting a name a second time leaves the roster, and so its size, as it was
  after the first time; \<open>recruit\<close> and \<open>make_recruitment\<close> have no exception among their
  results; after \<open>make_recruitment\<close> the roster holds what it held before and every
  configured name.
\<close>

theorem recruit_idempotent:
  "fcard (agents (roster (fst (recruit (fst (recruit env name)) name))))
     = fcard (agents (roster (fst (recruit env name)))) \<and>
   roster (fst (recruit (fst (recruit env name)) name)) = roster (fst (recruit env name)) \<and>
   agents (roster (chat_env (fst (make_recruitment ch))))
     = agents (roster (chat_env ch)) |\<union>| fset_of_list (recruitments ch)"
proof -
  have "roster (fst (recruit (fst (recruit env name)) name)) = roster (fst (recruit env name))"
    by (auto simp: recruit_def Roster_recruit_def)
  moreover have "agents (roster (chat_env (fst (make_recruitment ch))))
     = agents (roster (chat_env ch)) |\<union>| fset_of_list (recruitments ch)"
    using recruit_all_agents [of "chat_env ch" "recruitments ch"]
    by (cases "recruit_all (chat_env ch) (recruitments ch)") (simp add: make_recruitment_def)
  ultimately show ?thesis by simp
qed

section \<open>Properties of execute\_step and execute\_chain\<close>

text \<open>
  Claim C6: for a chain built by \<open>__init__\<close>, whatever its environment has become, a step
  of type \<open>SimplePhase\<close> whose phase exists calls the phase's \<open>execute\<close> with the
  configured \<open>max_turn_step\<close> when that is positive and with 10 otherwise.
\<close>

theorem execute_step_turn_limit:
  assumes "phase phase_item = Some name"
    and "phaseType phase_item = Some ''SimplePhase''"
    and "max_turn_step phase_item = Some turns"
    and "need_reflect phase_item = Some reflect"
    and "phase_instances name = Some instance"
    and "ch = (ChatChain_init config_chain config_recruitments cfg phase_instances module)
                \<lparr>chat_env := env\<rparr>"
  shows "execute_step ch phase_item
         = assign_env ch (instance env (if 0 < turns then turns else 10) (check_bool reflect))"
  using assms by (simp add: execute_step_def ChatChain_init_def)

theorem execute_step_turn_limit_witness:
  "env_dict (chat_env (state_of (execute_step chain_with_probe (simple_item ''Probe'' 0)))) ''turns''
     = Some ''||||||||||'' \<and>
   env_dict (chat_env (state_of (execute_step chain_with_probe (simple_item ''Probe'' 3)))) ''turns''
     = Some ''|||''"
proof -
  have ch: "chain_with_probe =
      (ChatChain_init [simple_item ''Probe'' 0] [] config_plain [''Probe'' \<mapsto> phase_probe] Map.empty)
        \<lparr>chat_env := ChatEnv_init config_plain\<rparr>"
    by (simp add: chain_with_probe_def ChatChain_init_def)
  have reg: "[''Probe'' \<mapsto> phase_probe] ''Probe'' = Some phase_probe" by simp
  have "execute_step chain_with_probe (simple_item ''Probe'' 0)
        = assign_env chain_with_probe
            (phase_probe (ChatEnv_init config_plain) (if (0::int) < 0 then 0 else 10) (check_bool ''False''))"
    by (rule execute_step_turn_limit [OF _ _ _ _ reg ch]) (simp_all add: simple_item_def)
  moreover
  have "execute_step chain_with_probe (simple_item ''Probe'' 3)
        = assign_env chain_with_probe
            (phase_probe (ChatEnv_init config_plain) (if (0::int) < 3 then 3 else 10) (check_bool ''False''))"
    by (rule execute_step_turn_limit [OF _ _ _ _ reg ch]) (simp_all add: simple_item_def)
  ultimately show ?thesis
    by (simp add: phase_probe_def numeral_eq_Suc)
qed

lemma execute_step_raises_apart:
  "phase_missing name \<noteq> phase_type_unknown phase_type"
  "compose_phase_missing name \<noteq> phase_type_unknown phase_type"
  "no_attribute name \<noteq> phase_type_unknown phase_type"
  "phase_missing name \<noteq> key_error k"
  "compose_phase_missing name \<noteq> key_error k"
  "no_attribute name \<noteq> key_error k"
  "phase_type_unknown phase_type \<noteq> key_error k"
  by (simp_all add: phase_missing_def compose_phase_missing_def no_attribute_def
        phase_type_unknown_def key_error_def)

lemma execute_step_raises_name:
  "sublist name (exn_text (phase_missing name))"
  "sublist name (exn_text (compose_phase_missing name))"
  "sublist name (exn_text (no_attribute name))"
  "sublist phase_type (exn_text (phase_type_unknown phase_type))"
proof -
  show "sublist name (exn_text (phase_missing name))"
    unfolding phase_missing_def exn.sel
    by (rule sublist_appendI [of name "''Phase '' @ [QUOTE]" "[QUOTE] @ '' is not yet implemented in chatdev.phase''", simplified append_assoc])
  show "sublist name (exn_text (compose_phase_missing name))"
    unfolding compose_phase_missing_def exn.sel
    by (rule sublist_appendI [of name "''Phase '' @ [QUOTE]" "[QUOTE] @ '' is not yet implemented in chatdev.compose_phase''", simplified append_assoc])
  show "sublist name (exn_text (no_attribute name))"
    unfolding no_attribute_def exn.sel
    by (rule sublist_appendI [of name "''module '' @ [QUOTE] @ ''chatdev.composed_phase'' @ [QUOTE] @ '' has no attribute '' @ [QUOTE]" "[QUOTE]", simplified append_assoc])
  show "sublist phase_type (exn_text (phase_type_unknown phase_type))"
    unfolding phase_type_unknown_def exn.sel
    by (rule sublist_appendI [of phase_type "''PhaseType '' @ [QUOTE]" "[QUOTE] @ '' is not yet implemented.''", simplified append_assoc])
qed

lemma execute_steps_stop:
  "execute_step ch phase_item = Raised e ch1 \<Longrightarrow> execute_steps ch (phase_item # rest) = Raised e ch1"
  by simp

text \<open>
  Claim C7: a step of type \<open>SimplePhase\<close> whose phase is not among the phase instances
  raises a \<open>RuntimeError\<close> whose text names the phase; a step of type \<open>ComposedPhase\<close>
  whose phase is not an attribute of the module of composed phases raises the
  \<open>AttributeError\<close> of \<open>getattr\<close>, whose text names the phase (and the \<open>RuntimeError\<close>
  written for this case when the attribute is there but counts as false); a step whose
  \<open>phaseType\<close> is neither of the two raises a \<open>RuntimeError\<close> on the phase type. Each of
  these leaves the chain as it was and ends the run of the steps; the errors of the
  resolution differ from the error on the phase type, whatever the names, and all of them
  differ from the \<open>KeyError\<close> of an entry with a key missing.
\<close>

theorem execute_step_unresolved:
  "(phase phase_item = Some name \<and> phaseType phase_item = Some ''SimplePhase'' \<and>
    max_turn_step phase_item = Some turns \<and> need_reflect phase_item = Some reflect \<and>
    phases ch name = None
      \<longrightarrow> execute_step ch phase_item = Raised (phase_missing name) ch \<and>
          execute_steps ch (phase_item # rest) = Raised (phase_missing name) ch) \<and>
   (phase phase_item = Some name \<and> phaseType phase_item = Some ''ComposedPhase'' \<and>
    cycleNum phase_item = Some cycle_num \<and> Composition phase_item = Some composition \<and>
    compose_phase_module ch name = None
      \<longrightarrow> execute_step ch phase_item = Raised (no_attribute name) ch \<and>
          execute_steps ch (phase_item # rest) = Raised (no_attribute name) ch) \<and>
   (phase phase_item = Some name \<and> phaseType phase_item = Some ''ComposedPhase'' \<and>
    cycleNum phase_item = Some cycle_num \<and> Composition phase_item = Some composition \<and>
    compose_phase_module ch name = Some Falsy
      \<longrightarrow> execute_step ch phase_item = Raised (compose_phase_missing name) ch \<and>
          execute_steps ch (phase_item # rest) = Raised (compose_phase_missing name) ch) \<and>
   (phase phase_item = Some name \<and> phaseType phase_item = Some phase_type \<and>
    phase_type \<noteq> ''SimplePhase'' \<and> phase_type \<noteq> ''ComposedPhase''
      \<longrightarrow> execute_step ch phase_item = Raised (phase_type_unknown phase_type) ch \<and>
          execute_steps ch (phase_item # rest) = Raised (phase_type_unknown phase_type) ch) \<and>
   sublist name (exn_text (phase_missing name)) \<and>
   sublist name (exn_text (no_attribute name)) \<and>
   sublist name (exn_text (compose_phase_missing name)) \<and>
   phase_missing name \<noteq> phase_type_unknown other_type \<and>
   no_attribute name \<noteq> phase_type_unknown other_type \<and>
   compose_phase_missing name \<noteq> phase_type_unknown other_type \<and>
   phase_missing name \<noteq> key_error k \<and>
   no_attribute name \<noteq> key_error k \<and>
   compose_phase_missing name \<noteq> key_error k \<and>
   phase_type_unknown other_type \<noteq> key_error k"
proof -
  have simple: "phase phase_item = Some name \<and> phaseType phase_item = Some ''SimplePhase'' \<and>
    max_turn_step phase_item = Some turns \<and> need_reflect phase_item = Some reflect \<and>
    phases ch name = None
      \<longrightarrow> execute_step ch phase_item = Raised (phase_missing name) ch"
    by (simp add: execute_step_def)
  have composed: "phase phase_item = Some name \<and> phaseType phase_item = Some ''ComposedPhase'' \<and>
    cycleNum phase_item = Some cycle_num \<and> Composition phase_item = Some composition \<and>
    compose_phase_module ch name = None
      \<longrightarrow> execute_step ch phase_item = Raised (no_attribute name) ch"
    by (simp add: execute_step_def)
  have falsy: "phase phase_item = Some name \<and> phaseType phase_item = Some ''ComposedPhase'' \<and>
    cycleNum phase_item = Some cycle_num \<and> Composition phase_item = Some composition \<and>
    compose_phase_module ch name = Some Falsy
      \<longrightarrow> execute_step ch phase_item = Raised (compose_phase_missing name) ch"
    by (simp add: execute_step_def)
  have unknown: "phase phase_item = Some name \<and> phaseType phase_item = Some phase_type \<and>
    phase_type \<noteq> ''SimplePhase'' \<and> phase_type \<noteq> ''ComposedPhase''
      \<longrightarrow> execute_step ch phase_item = Raised (phase_type_unknown phase_type) ch"
    by (simp add: execute_step_def)
  show ?thesis
    using simple composed falsy unknown execute_step_raises_apart execute_step_raises_name
    by (simp add: execute_steps_stop)
qed

theorem execute_step_unresolved_witness:
  "execute_step chain_with_bad_name (simple_item ''Missing'' 3)
     = Raised (phase_missing ''Missing'') chain_with_bad_name \<and>
   execute_step chain_with_bad_name (composed_item ''CodeReview'' 2)
     = Raised (no_attribute ''CodeReview'') chain_with_bad_name \<and>
   execute_step chain_with_bad_name (typed_item ''Coding'' ''PlainPhase'')
     = Raised (phase_type_unknown ''PlainPhase'') chain_with_bad_name \<and>
   phase_missing ''Missing'' \<noteq> phase_type_unknown ''PlainPhase''"
proof -
  have none: "phases chain_with_bad_name ''Missing'' = None"
    "compose_phase_module chain_with_bad_name ''CodeReview'' = None"
    by (simp_all add: chain_with_bad_name_def ChatChain_init_def)
  have items: "phase (simple_item ''Missing'' 3) = Some ''Missing''"
    "phaseType (simple_item ''Missing'' 3) = Some ''SimplePhase''"
    "max_turn_step (simple_item ''Missing'' 3) = Some 3"
    "need_reflect (simple_item ''Missing'' 3) = Some ''False''"
    "phase (composed_item ''CodeReview'' 2) = Some ''CodeReview''"
    "phaseType (composed_item ''CodeReview'' 2) = Some ''ComposedPhase''"
    "cycleNum (composed_item ''CodeReview'' 2) = Some 2"
    "Composition (composed_item ''CodeReview'' 2) = Some ()"
    "phase (typed_item ''Coding'' ''PlainPhase'') = Some ''Coding''"
    "phaseType (typed_item ''Coding'' ''PlainPhase'') = Some ''PlainPhase''"
    by (simp_all add: simple_item_def composed_item_def typed_item_def)
  have types: "''PlainPhase'' \<noteq> ''SimplePhase''" "''PlainPhase'' \<noteq> ''ComposedPhase''"
    by simp_all
  note t1 = execute_step_unresolved
      [where phase_item = "simple_item ''Missing'' 3" and name = "''Missing''" and turns = 3
         and reflect = "''False''" and ch = chain_with_bad_name and rest = "[]"
         and other_type = "''PlainPhase''", THEN conjunct1, rule_format]
  note t2 = execute_step_unresolved
      [where phase_item = "composed_item ''CodeReview'' 2" and name = "''CodeReview''"
         and cycle_num = 2 and composition = "()" and ch = chain_with_bad_name and rest = "[]",
       THEN conjunct2, THEN conjunct1, rule_format]
  note t3 = execute_step_unresolved
      [where phase_item = "typed_item ''Coding'' ''PlainPhase''" and name = "''Coding''"
         and phase_type = "''PlainPhase''" and ch = chain_with_bad_name and rest = "[]",
       THEN conjunct2, THEN conjunct2, THEN conjunct2, THEN conjunct1, rule_format]
  note t4 = execute_step_unresolved
      [where name = "''Missing''" and other_type = "''PlainPhase''",
       THEN conjunct2, THEN conjunct2, THEN conjunct2, THEN conjunct2,
       THEN conjunct2, THEN conjunct2, THEN conjunct2, THEN conjunct1]
  have a: "execute_step chain_with_bad_name (simple_item ''Missing'' 3)
     = Raised (phase_missing ''Missing'') chain_with_bad_name"
    using t1 items(1-4) none(1) by blast
  have b: "execute_step chain_with_bad_name (composed_item ''CodeReview'' 2)
     = Raised (no_attribute ''CodeReview'') chain_with_bad_name"
    using t2 items(5-8) none(2) by blast
  have c: "execute_step chain_with_bad_name (typed_item ''Coding'' ''PlainPhase'')
     = Raised (phase_type_unknown ''PlainPhase'') chain_with_bad_name"
    using t3 items(9,10) types by blast
  from a b c t4 show ?thesis by blast
qed

lemma assign_env_phases: "phases (state_of (assign_env ch r)) = phases ch"
  by (cases r) simp_all

lemma execute_step_phases: "phases (state_of (execute_step ch phase_item)) = phases ch"
  by (simp add: execute_step_def assign_env_phases split: option.splits module_attr.splits)

lemma execute_steps_phases: "phases (state_of (execute_steps ch items)) = phases ch"
proof (induction items arbitrary: ch)
  case Nil
  then show ?case by simp
next
  case (Cons phase_item items)
  show ?case
  proof (cases "execute_step ch phase_item")
    case (Raised e ch1)
    then show ?thesis using execute_step_phases [of ch phase_item] by simp
  next
    case (Returned ch1)
    then show ?thesis
      using execute_step_phases [of ch phase_item] Cons.IH [of ch1] by simp
  qed
qed

lemma execute_steps_append:
  "execute_steps ch (before @ rest) =
     (case execute_steps ch before of
        Raised e ch1 \<Rightarrow> Raised e ch1
      | Returned ch1 \<Rightarrow> execute_steps ch1 rest)"
  by (induction before arbitrary: ch) (simp_all split: outcome.splits)

text \<open>
  Claim C2, as the code has it: \<open>execute_chain\<close> checks no name before it starts. It
  executes the steps in order; when the steps before position N have returned and the
  step at position N names a simple phase that does not exist, the run ends there with
  the error of the resolution, in the state the steps before N have left, and no later
  step is executed.
\<close>

theorem execute_chain_in_order:
  assumes "chain ch = before @ bad # rest"
    and "execute_steps ch before = Returned ch1"
    and "phase bad = Some name" and "phaseType bad = Some ''SimplePhase''"
    and "max_turn_step bad = Some turns" and "need_reflect bad = Some reflect"
    and "phases ch name = None"
  shows "execute_chain ch = Raised (phase_missing name) ch1"
proof -
  have "phases ch1 = phases ch"
    using execute_steps_phases [of ch before] assms(2) by simp
  then have "execute_step ch1 bad = Raised (phase_missing name) ch1"
    using assms(3-7) by (simp add: execute_step_def)
  then show ?thesis
    using assms(1,2) by (simp add: execute_chain_def execute_steps_append)
qed

theorem execute_chain_in_order_witness:
  "execute_chain chain_with_bad_name
     = Raised (phase_missing ''Missing'')
         (chain_with_bad_name\<lparr>chat_env :=
            (ChatEnv_init config_plain)\<lparr>env_dict :=
               (env_dict (ChatEnv_init config_plain))(''modality'' \<mapsto> ''web'')\<rparr>\<rparr>)"
proof -
  have c: "chain chain_with_bad_name
           = [simple_item ''DemandAnalysis'' 3] @ simple_item ''Missing'' 3 # []"
    by (simp add: chain_with_bad_name_def ChatChain_init_def)
  have reg: "phases chain_with_bad_name ''DemandAnalysis'' = Some (phase_writing ''modality'' ''web'')"
    by (simp add: chain_with_bad_name_def ChatChain_init_def)
  have env: "chat_env chain_with_bad_name = ChatEnv_init config_plain"
    by (simp add: chain_with_bad_name_def ChatChain_init_def)
  have step: "execute_step chain_with_bad_name (simple_item ''DemandAnalysis'' 3)
        = Returned (chain_with_bad_name\<lparr>chat_env :=
            (ChatEnv_init config_plain)\<lparr>env_dict :=
               (env_dict (ChatEnv_init config_plain))(''modality'' \<mapsto> ''web'')\<rparr>\<rparr>)"
    by (simp add: execute_step_def simple_item_def reg env phase_writing_def)
  have before: "execute_steps chain_with_bad_name [simple_item ''DemandAnalysis'' 3]
        = Returned (chain_with_bad_name\<lparr>chat_env :=
            (ChatEnv_init config_plain)\<lparr>env_dict :=
               (env_dict (ChatEnv_init config_plain))(''modality'' \<mapsto> ''web'')\<rparr>\<rparr>)"
    by (simp add: step)
  have none: "phases chain_with_bad_name ''Missing'' = None"
    by (simp add: chain_with_bad_name_def ChatChain_init_def)
  show ?thesis
    by (rule execute_chain_in_order [OF c before _ _ _ _ none])
       (simp_all add: simple_item_def)
qed

text \<open>
  Claim C2 as stated fails: in a chain of two steps whose second names a phase that does
  not exist, the run ends with the error of the resolution, and by then the first phase
  has written its scratch field, which was empty before.
\<close>

theorem execute_chain_no_static_validation:
  "raised (execute_chain chain_with_bad_name) = Some (phase_missing ''Missing'') \<and>
   env_dict (chat_env chain_with_bad_name) ''modality'' = Some [] \<and>
   env_dict (chat_env (state_of (execute_chain chain_with_bad_name))) ''modality'' = Some ''web''"
  by (simp add: execute_chain_def chain_with_bad_name_def ChatChain_init_def ChatEnv_init_def
        execute_step_def simple_item_def phase_writing_def check_bool_def)

section \<open>Properties of exist\_bugs\<close>

lemma handle_exn_text:
  "fst (handle_exn e) = True" "sublist (exn_text e) (snd (handle_exn e))"
proof -
  show "fst (handle_exn e) = True" by (simp add: handle_exn_def)
  show "sublist (exn_text e) (snd (handle_exn e))"
  proof (cases "exn_class e = CalledProcessError")
    case True
    then have "snd (handle_exn e) = ''Error: '' @ exn_text e"
      by (simp only: handle_exn_def simp_thms if_True snd_conv)
    then show ?thesis by (simp only: sublist_append_leftI)
  next
    case False
    then have "snd (handle_exn e) = ''An error occurred: '' @ exn_text e"
      by (simp only: handle_exn_def simp_thms if_False snd_conv)
    then show ?thesis by (simp only: sublist_append_leftI)
  qed
qed

lemma classify_run_returns: "\<exists>r. fst (classify_run directory w return_code effs) = Inr r"
  by (cases "stderr_text w") (auto simp: classify_run_def)

text \<open>
  Claim C4: in an environment that has its \<open>directory\<close> field, \<open>exist_bugs\<close> always
  returns a result and never an exception. An exception raised by the spawn, by the
  termination of the process group of a child still running, or by reading and decoding
  the captured error output is turned into a result that reports a bug, with a message
  that ends with the text of the exception.
\<close>

theorem exist_bugs_never_raises:
  assumes "env_dict env ''directory'' = Some directory"
  shows "(\<exists>r. fst (exist_bugs env w) = Inr r) \<and>
         (spawn_raises w = Some e \<longrightarrow> fst (exist_bugs env w) = Inr (handle_exn e)) \<and>
         (spawn_raises w = None \<and> status_after_sleep w = None \<and> kill_raises w = Some e
            \<longrightarrow> fst (exist_bugs env w) = Inr (handle_exn e)) \<and>
         (spawn_raises w = None \<and> (status_after_sleep w = None \<longrightarrow> kill_raises w = None) \<and>
          stderr_text w = Inl e
            \<longrightarrow> fst (exist_bugs env w) = Inr (handle_exn e)) \<and>
         fst (handle_exn e) = True \<and> sublist (exn_text e) (snd (handle_exn e))"
proof -
  have ret: "\<exists>r. fst (exist_bugs env w) = Inr r"
    using assms classify_run_returns
    by (simp add: exist_bugs_def Let_def poll_def Popen_new_def split: option.splits)
  have spawn: "spawn_raises w = Some e \<longrightarrow> fst (exist_bugs env w) = Inr (handle_exn e)"
    using assms by (simp add: exist_bugs_def)
  have kill: "spawn_raises w = None \<and> status_after_sleep w = None \<and> kill_raises w = Some e
            \<longrightarrow> fst (exist_bugs env w) = Inr (handle_exn e)"
    using assms by (simp add: exist_bugs_def Let_def poll_def Popen_new_def)
  have read: "spawn_raises w = None \<and> (status_after_sleep w = None \<longrightarrow> kill_raises w = None) \<and>
          stderr_text w = Inl e
            \<longrightarrow> fst (exist_bugs env w) = Inr (handle_exn e)"
    using assms
    by (auto simp: exist_bugs_def Let_def poll_def Popen_new_def classify_run_def)
  show ?thesis using ret spawn kill read handle_exn_text by blast
qed

theorem exist_bugs_never_raises_witness:
  "fst (exist_bugs (env_at ''WareHouse/snake'') (spawn_failure (Exn OSError ''fork failed'')))
     = Inr (True, ''An error occurred: fork failed'') \<and>
   fst (exist_bugs (env_at ''WareHouse/snake'')
          (spawn_failure (Exn CalledProcessError ''exit status 2'')))
     = Inr (True, ''Error: exit status 2'')"
proof -
  have d: "env_dict (env_at ''WareHouse/snake'') ''directory'' = Some ''WareHouse/snake''"
    by (simp add: env_at_def)
  have a: "fst (exist_bugs (env_at ''WareHouse/snake'') (spawn_failure (Exn OSError ''fork failed'')))
     = Inr (handle_exn (Exn OSError ''fork failed''))"
    using exist_bugs_never_raises
      [OF d, where w = "spawn_failure (Exn OSError ''fork failed'')"
         and e = "Exn OSError ''fork failed''"]
    by (simp add: spawn_failure_def)
  have b: "fst (exist_bugs (env_at ''WareHouse/snake'')
          (spawn_failure (Exn CalledProcessError ''exit status 2'')))
     = Inr (handle_exn (Exn CalledProcessError ''exit status 2''))"
    using exist_bugs_never_raises
      [OF d, where w = "spawn_failure (Exn CalledProcessError ''exit status 2'')"
         and e = "Exn CalledProcessError ''exit status 2''"]
    by (simp add: spawn_failure_def)
  show ?thesis unfolding a b by (simp add: handle_exn_def)
qed

lemma lower_Traceback: "str_lower ''Traceback'' = ''traceback''"
  by code_simp

lemma exist_bugs_by_stderr:
  assumes "env_dict env ''directory'' = Some directory"
    and "spawn_raises w = None"
    and "status_after_sleep w = None \<longrightarrow> kill_raises w = None"
    and "stderr_text w = Inr error_output"
  shows "fst (exist_bugs env w) =
           Inr (if error_output \<noteq> [] \<and> sublist ''traceback'' (str_lower error_output)
                then (True, str_replace error_output (directory @ ''/'') [])
                else (False, success_info))"
  using assms
  by (auto simp: exist_bugs_def Let_def poll_def Popen_new_def classify_run_def lower_Traceback)

lemma exist_bugs_kills:
  assumes "env_dict env ''directory'' = Some directory"
    and "spawn_raises w = None"
  shows "KillGroup \<in> set (snd (exist_bugs env w))
           \<longleftrightarrow> status_after_sleep w = None \<and> kill_raises w = None"
  using assms
  by (auto simp: exist_bugs_def Let_def poll_def Popen_new_def classify_run_def
           split: sum.splits option.splits)

lemma exist_bugs_exit_code:
  "fst (exist_bugs env (w\<lparr>status_after_sleep := Some c\<rparr>))
     = fst (exist_bugs env (w\<lparr>status_after_sleep := Some c'\<rparr>))"
  by (simp add: exist_bugs_def Let_def poll_def Popen_new_def classify_run_def
           split: option.splits)

lemma exist_bugs_alive_or_not:
  "kill_raises w = None \<Longrightarrow>
   fst (exist_bugs env (w\<lparr>status_after_sleep := None\<rparr>))
     = fst (exist_bugs env (w\<lparr>status_after_sleep := Some c\<rparr>))"
  by (simp add: exist_bugs_def Let_def poll_def Popen_new_def classify_run_def
           split: option.splits sum.splits)

text \<open>
  Claim C10: when the spawn succeeds, the result of \<open>exist_bugs\<close> is the same for every
  exit code of the child, zero included, and, when the termination of the group does not
  raise, the same for a child still running as for one that has ended: \<open>return_code\<close> is
  read before \<open>poll\<close> and is \<open>None\<close>, so the branch for the exit code zero is never
  taken. When no call raises, the result is decided by the captured error output alone.
\<close>

theorem exist_bugs_ignores_exit_status:
  assumes "spawn_raises w = None"
  shows "fst (exist_bugs env (w\<lparr>status_after_sleep := Some c\<rparr>))
           = fst (exist_bugs env (w\<lparr>status_after_sleep := Some c'\<rparr>)) \<and>
         (kill_raises w = None \<longrightarrow>
            fst (exist_bugs env (w\<lparr>status_after_sleep := None\<rparr>))
              = fst (exist_bugs env (w\<lparr>status_after_sleep := Some c\<rparr>))) \<and>
         (env_dict env ''directory'' = Some directory \<and> stderr_text w = Inr error_output \<and>
          (status_after_sleep w = None \<longrightarrow> kill_raises w = None) \<longrightarrow>
            fst (exist_bugs env w) =
              Inr (if error_output \<noteq> [] \<and> sublist ''traceback'' (str_lower error_output)
                   then (True, str_replace error_output (directory @ ''/'') [])
                   else (False, success_info)))"
proof (intro conjI impI)
  show "fst (exist_bugs env (w\<lparr>status_after_sleep := Some c\<rparr>))
          = fst (exist_bugs env (w\<lparr>status_after_sleep := Some c'\<rparr>))"
    by (rule exist_bugs_exit_code)
next
  assume "kill_raises w = None"
  then show "fst (exist_bugs env (w\<lparr>status_after_sleep := None\<rparr>))
               = fst (exist_bugs env (w\<lparr>status_after_sleep := Some c\<rparr>))"
    by (rule exist_bugs_alive_or_not)
next
  assume "env_dict env ''directory'' = Some directory \<and> stderr_text w = Inr error_output \<and>
          (status_after_sleep w = None \<longrightarrow> kill_raises w = None)"
  then show "fst (exist_bugs env w) =
              Inr (if error_output \<noteq> [] \<and> sublist ''traceback'' (str_lower error_output)
                   then (True, str_replace error_output (directory @ ''/'') [])
                   else (False, success_info))"
    using assms by (intro exist_bugs_by_stderr) simp_all
qed

text \<open>
  Claim C3, as the code has it, for a call in which nothing raises. A child still running
  after the three seconds has its process group terminated; the result then reports a
  bug, with the captured error output stripped of the directory, when that output has the
  traceback marker in it, and no bug otherwise. A child that has ended with an exit code
  other than zero and a captured error output with the marker gives a bug with the
  stripped output as message; with no captured error output it gives no bug.
\<close>

theorem exist_bugs_classification:
  assumes "env_dict env ''directory'' = Some directory"
    and "spawn_raises w = None"
    and "stderr_text w = Inr error_output"
  shows "(status_after_sleep w = None \<and> kill_raises w = None \<longrightarrow>
            KillGroup \<in> set (snd (exist_bugs env w)) \<and>
            fst (exist_bugs env w) =
              Inr (if error_output \<noteq> [] \<and> sublist ''traceback'' (str_lower error_output)
                   then (True, str_replace error_output (directory @ ''/'') [])
                   else (False, success_info))) \<and>
         (status_after_sleep w = Some c \<and> c \<noteq> 0 \<and>
          sublist ''traceback'' (str_lower error_output) \<longrightarrow>
            KillGroup \<notin> set (snd (exist_bugs env w)) \<and>
            fst (exist_bugs env w)
              = Inr (True, str_replace error_output (directory @ ''/'') [])) \<and>
         (status_after_sleep w = Some c \<and> c \<noteq> 0 \<and> error_output = [] \<longrightarrow>
            KillGroup \<notin> set (snd (exist_bugs env w)) \<and>
            fst (exist_bugs env w) = Inr (False, success_info))"
proof -
  have ne: "sublist ''traceback'' (str_lower error_output) \<Longrightarrow> error_output \<noteq> []"
    by (auto simp: str_lower_def)
  show ?thesis
    using exist_bugs_by_stderr [OF assms(1,2) _ assms(3)] exist_bugs_kills [OF assms(1,2)] ne
    by auto
qed

text \<open>
  Claim C3 as stated fails: a child that is still running after the three seconds and has
  written a traceback to its error output has its group terminated and is reported as a
  bug, not as a success.
\<close>

theorem exist_bugs_alive_with_traceback:
  "fst (exist_bugs (env_at ''WareHouse/snake'')
          (run_with None ''Traceback (most recent call last):''))
     = Inr (True, ''Traceback (most recent call last):'') \<and>
   KillGroup \<in> set (snd (exist_bugs (env_at ''WareHouse/snake'')
                           (run_with None ''Traceback (most recent call last):'')))"
  by code_simp

theorem exist_bugs_ignores_exit_status_witness:
  "fst (exist_bugs (env_at ''WareHouse/snake'')
          (run_with (Some 0) ''Traceback: File WareHouse/snake/main.py''))
     = fst (exist_bugs (env_at ''WareHouse/snake'')
              (run_with (Some 1) ''Traceback: File WareHouse/snake/main.py'')) \<and>
   fst (exist_bugs (env_at ''WareHouse/snake'')
          (run_with (Some 0) ''Traceback: File WareHouse/snake/main.py''))
     = Inr (True, ''Traceback: File main.py'')"
proof -
  let ?w = "run_with (Some 0) ''Traceback: File WareHouse/snake/main.py''"
  have s: "spawn_raises ?w = None" by (simp add: run_with_def)
  have d: "env_dict (env_at ''WareHouse/snake'') ''directory'' = Some ''WareHouse/snake''"
    by (simp add: env_at_def)
  have upd: "?w\<lparr>status_after_sleep := Some 0\<rparr> = ?w"
    "?w\<lparr>status_after_sleep := Some 1\<rparr>
       = run_with (Some 1) ''Traceback: File WareHouse/snake/main.py''"
    by (simp_all add: run_with_def)
  have w: "stderr_text ?w = Inr ''Traceback: File WareHouse/snake/main.py''"
    "status_after_sleep ?w = None \<longrightarrow> kill_raises ?w = None"
    by (simp_all add: run_with_def)
  have tb: "''Traceback: File WareHouse/snake/main.py'' \<noteq> [] \<and>
            sublist ''traceback'' (str_lower ''Traceback: File WareHouse/snake/main.py'')"
    by code_simp
  have strip: "str_replace ''Traceback: File WareHouse/snake/main.py'' (''WareHouse/snake'' @ ''/'') []
               = ''Traceback: File main.py''"
    by code_simp
  note t = exist_bugs_ignores_exit_status
      [OF s, where env = "env_at ''WareHouse/snake''" and c = 0 and c' = 1
         and directory = "''WareHouse/snake''"
         and error_output = "''Traceback: File WareHouse/snake/main.py''"]
  have a: "fst (exist_bugs (env_at ''WareHouse/snake'') ?w)
           = fst (exist_bugs (env_at ''WareHouse/snake'')
                    (run_with (Some 1) ''Traceback: File WareHouse/snake/main.py''))"
    using t [THEN conjunct1] by (simp only: upd)
  have b: "fst (exist_bugs (env_at ''WareHouse/snake'') ?w) = Inr (True, ''Traceback: File main.py'')"
    using t [THEN conjunct2, THEN conjunct2, rule_format, OF conjI [OF d conjI [OF w]]]
    by (simp only: tb strip if_True simp_thms)
  from a b show ?thesis by (rule conjI)
qed

theorem exist_bugs_classification_witness:
  "KillGroup \<in> set (snd (exist_bugs (env_at ''WareHouse/snake'') (run_with None ''listening on port 8000''))) \<and>
   fst (exist_bugs (env_at ''WareHouse/snake'') (run_with None ''listening on port 8000''))
     = Inr (False, success_info) \<and>
   fst (exist_bugs (env_at ''WareHouse/snake'')
          (run_with (Some 1) ''Traceback: File WareHouse/snake/main.py''))
     = Inr (True, ''Traceback: File main.py'') \<and>
   fst (exist_bugs (env_at ''WareHouse/snake'') (run_with (Some 1) [])) = Inr (False, success_info)"
proof -
  have d: "env_dict (env_at ''WareHouse/snake'') ''directory'' = Some ''WareHouse/snake''"
    by (simp add: env_at_def)
  have w1: "spawn_raises (run_with None ''listening on port 8000'') = None"
    "stderr_text (run_with None ''listening on port 8000'') = Inr ''listening on port 8000''"
    "status_after_sleep (run_with None ''listening on port 8000'') = None \<and>
     kill_raises (run_with None ''listening on port 8000'') = None"
    by (simp_all add: run_with_def)
  have no_tb: "\<not> sublist ''traceback'' (str_lower ''listening on port 8000'')" by code_simp
  have w2: "spawn_raises (run_with (Some 1) ''Traceback: File WareHouse/snake/main.py'') = None"
    "stderr_text (run_with (Some 1) ''Traceback: File WareHouse/snake/main.py'')
       = Inr ''Traceback: File WareHouse/snake/main.py''"
    "status_after_sleep (run_with (Some 1) ''Traceback: File WareHouse/snake/main.py'') = Some 1"
    by (simp_all add: run_with_def)
  have tb: "sublist ''traceback'' (str_lower ''Traceback: File WareHouse/snake/main.py'')"
    by code_simp
  have strip: "str_replace ''Traceback: File WareHouse/snake/main.py'' (''WareHouse/snake'' @ ''/'') []
               = ''Traceback: File main.py''"
    by code_simp
  have w3: "spawn_raises (run_with (Some 1) []) = None"
    "stderr_text (run_with (Some 1) []) = Inr []"
    "status_after_sleep (run_with (Some 1) []) = Some 1"
    by (simp_all add: run_with_def)
  have a: "KillGroup \<in> set (snd (exist_bugs (env_at ''WareHouse/snake'') (run_with None ''listening on port 8000''))) \<and>
   fst (exist_bugs (env_at ''WareHouse/snake'') (run_with None ''listening on port 8000''))
     = Inr (False, success_info)"
    using exist_bugs_classification [OF d w1(1,2), THEN conjunct1, rule_format, OF w1(3)] no_tb
    by simp
  have b: "fst (exist_bugs (env_at ''WareHouse/snake'')
          (run_with (Some 1) ''Traceback: File WareHouse/snake/main.py''))
     = Inr (True, ''Traceback: File main.py'')"
    using exist_bugs_classification [OF d w2(1,2), where c = 1, THEN conjunct2, THEN conjunct1,
            rule_format, OF conjI [OF w2(3) conjI [OF _ tb]]] strip
    by simp
  have c: "fst (exist_bugs (env_at ''WareHouse/snake'') (run_with (Some 1) [])) = Inr (False, success_info)"
    using exist_bugs_classification [OF d w3(1,2), where c = 1, THEN conjunct2, THEN conjunct2,
            rule_format, OF conjI [OF w3(3)]]
    by simp
  from a b c show ?thesis by simp
qed

section \<open>Properties of fix\_module\_not\_found\_error\<close>

lemma finditer_modules_unfold:
  "s \<noteq> [] \<Longrightarrow>
   finditer_modules s =
     (case match_module_at s of
        Some (module, n) \<Rightarrow> module # finditer_modules (drop n s)
      | None \<Rightarrow> finditer_modules (tl s))"
  by (cases s) (auto split: option.splits)

lemma finditer_modules_skip:
  "\<not> prefix NO_MODULE (c # s) \<Longrightarrow> finditer_modules (c # s) = finditer_modules s"
  by (simp add: match_module_at_def)

lemma finditer_modules_header:
  "finditer_modules (''ModuleNotFoundError: '' @ s) = finditer_modules s"
  by (simp add: match_module_at_def NO_MODULE_def)

lemma quote_not_space: "\<not> is_space QUOTE" "is_space (CHR 0x0A)"
  by (simp_all add: is_space_def QUOTE_def)

lemma run_of_plain_name:
  assumes "plain_name m"
  shows "takeWhile (\<lambda>c. \<not> is_space c) (m @ QUOTE # CHR 0x0A # rest) = m @ [QUOTE]"
proof -
  have "\<forall>c \<in> set m. \<not> is_space c"
    using assms by (simp add: plain_name_def list_all_iff)
  then show ?thesis
    by (simp add: takeWhile_append2 quote_not_space)
qed

lemma quotes_of_plain_name:
  assumes "plain_name m"
  shows "filter (\<lambda>j. (m @ [QUOTE]) ! j = QUOTE) [1..<length (m @ [QUOTE])] = [length m]"
proof -
  have len: "1 \<le> length m" using assms by (cases m) (simp_all add: plain_name_def)
  have noq: "\<forall>j < length m. m ! j \<noteq> QUOTE"
    using assms by (auto simp: plain_name_def list_all_iff)
  have "[1..<length (m @ [QUOTE])] = [1..<length m] @ [length m]"
    using len by simp
  moreover have "filter (\<lambda>j. (m @ [QUOTE]) ! j = QUOTE) [1..<length m] = []"
    using noq by (auto simp: filter_empty_conv nth_append)
  ultimately show ?thesis by (simp add: nth_append)
qed

lemma match_module_at_plain_name:
  assumes "plain_name m"
  shows "match_module_at (NO_MODULE @ m @ QUOTE # CHR 0x0A # rest)
         = Some (m, length NO_MODULE + length m + 1)"
  using run_of_plain_name [OF assms, of rest] quotes_of_plain_name [OF assms]
  by (simp add: match_module_at_def Let_def)

lemma finditer_modules_line:
  assumes "plain_name m"
  shows "finditer_modules (report_line m @ rest) = m # finditer_modules rest"
proof -
  have ne: "NO_MODULE @ m @ QUOTE # CHR 0x0A # rest \<noteq> []" by (simp add: NO_MODULE_def)
  have "report_line m @ rest
        = ''ModuleNotFoundError: '' @ (NO_MODULE @ m @ QUOTE # CHR 0x0A # rest)"
    by (simp add: report_line_def)
  then have "finditer_modules (report_line m @ rest)
        = finditer_modules (NO_MODULE @ m @ QUOTE # CHR 0x0A # rest)"
    by (simp only: finditer_modules_header)
  also have "\<dots> = m # finditer_modules (CHR 0x0A # rest)"
    by (subst finditer_modules_unfold [OF ne])
       (simp add: match_module_at_plain_name [OF assms])
  also have "finditer_modules (CHR 0x0A # rest) = finditer_modules rest"
    by (rule finditer_modules_skip) (simp add: NO_MODULE_def)
  finally show ?thesis .
qed

lemma finditer_modules_report:
  "list_all plain_name modules \<Longrightarrow> finditer_modules (report_of modules) = modules"
  by (induction modules) (simp_all add: report_of_def finditer_modules_line)

lemma report_has_marker:
  assumes "modules \<noteq> []"
  shows "sublist ''ModuleNotFoundError'' (report_of modules)"
proof -
  obtain m ms where "modules = m # ms" using assms by (cases modules) auto
  then have "report_of modules
        = ''ModuleNotFoundError'' @ ('': '' @ NO_MODULE @ m @ [QUOTE, CHR 0x0A] @ report_of ms)"
    by (simp add: report_of_def report_line_def)
  then show ?thesis by (simp only: sublist_append_rightI)
qed

lemma install_all_ok:
  "\<forall>i cmd. shell i cmd = None \<Longrightarrow>
   \<exists>effs. install_all shell i modules = Returned effs \<and>
          shell_commands effs = map ((@) ''pip install '') modules"
proof (induction modules arbitrary: i)
  case Nil
  then show ?case by simp
next
  case (Cons m ms)
  from Cons.IH [OF Cons.prems, of "Suc i"] obtain effs where
    rest: "install_all shell (Suc i) ms = Returned effs"
    and cmds: "shell_commands effs = map ((@) ''pip install '') ms"
    by blast
  have ok: "shell i (''pip install '' @ m) = None"
    using Cons.prems by blast
  have "install_all shell i (m # ms)
        = Returned ([Shell (''pip install '' @ m),
                     Log (''**[CMD Execute]**\<newline>\<newline>[CMD] pip install '' @ m)] @ effs)"
    by (simp only: install_all.simps Let_def ok rest option.case outcome.case)
  then show ?case using cmds by simp
qed

text \<open>
  Claim C1, as the code has it: for a report with one line
  \<^verbatim>\<open>ModuleNotFoundError: No module named '<module>'\<close> per entry of a list of module names,
  and a shell in which no spawn raises, \<open>fix_module_not_found_error\<close> runs
  \<^verbatim>\<open>pip install <module>\<close> once for every entry of the list, in the order of the list: a module
  is installed as many times as it is mentioned, and the modules installed are those
  mentioned. For a report without the text \<open>ModuleNotFoundError\<close> it does nothing, and
  for any report with that text it runs one installation for every match of the pattern,
  in the order of the matches.
\<close>

theorem fix_module_installs_each_mention:
  assumes "list_all plain_name modules"
    and "\<forall>i cmd. shell i cmd = None"
  shows "shell_commands (effects_of (fix_module_not_found_error shell (report_of modules)))
           = map ((@) ''pip install '') modules \<and>
         (\<not> sublist ''ModuleNotFoundError'' test_reports \<longrightarrow>
            fix_module_not_found_error shell test_reports = Returned []) \<and>
         (sublist ''ModuleNotFoundError'' test_reports \<longrightarrow>
            shell_commands (effects_of (fix_module_not_found_error shell test_reports))
              = map ((@) ''pip install '') (finditer_modules test_reports))"
proof -
  have every_match: "sublist ''ModuleNotFoundError'' test_reports \<longrightarrow>
            shell_commands (effects_of (fix_module_not_found_error shell test_reports))
              = map ((@) ''pip install '') (finditer_modules test_reports)"
  proof
    assume marker: "sublist ''ModuleNotFoundError'' test_reports"
    obtain effs where "install_all shell 0 (finditer_modules test_reports) = Returned effs"
      "shell_commands effs = map ((@) ''pip install '') (finditer_modules test_reports)"
      using install_all_ok [OF assms(2)] by blast
    then show "shell_commands (effects_of (fix_module_not_found_error shell test_reports))
              = map ((@) ''pip install '') (finditer_modules test_reports)"
      using marker by (simp add: fix_module_not_found_error_def)
  qed
  have "shell_commands (effects_of (fix_module_not_found_error shell (report_of modules)))
           = map ((@) ''pip install '') modules"
  proof (cases "modules = []")
    case True
    then show ?thesis by (simp add: fix_module_not_found_error_def report_of_def)
  next
    case False
    obtain effs where "install_all shell 0 modules = Returned effs"
      "shell_commands effs = map ((@) ''pip install '') modules"
      using install_all_ok [OF assms(2)] by blast
    then show ?thesis
      using report_has_marker [OF False] finditer_modules_report [OF assms(1)]
      by (simp add: fix_module_not_found_error_def)
  qed
  then show ?thesis using every_match by (simp add: fix_module_not_found_error_def)
qed

theorem fix_module_installs_each_mention_witness:
  "shell_commands (effects_of (fix_module_not_found_error shell_ok
      (report_of [''pygame'', ''numpy'', ''pygame''])))
     = [''pip install pygame'', ''pip install numpy'', ''pip install pygame''] \<and>
   fix_module_not_found_error shell_ok ''all tests passed'' = Returned []"
proof -
  have names: "list_all plain_name [''pygame'', ''numpy'', ''pygame'']"
    by code_simp
  have ok: "\<forall>i cmd. shell_ok i cmd = None"
    by (simp add: shell_ok_def)
  have absent: "\<not> sublist ''ModuleNotFoundError'' ''all tests passed''"
    by code_simp
  note t = fix_module_installs_each_mention
      [OF names ok, where test_reports = "''all tests passed''"]
  have a: "shell_commands (effects_of (fix_module_not_found_error shell_ok
      (report_of [''pygame'', ''numpy'', ''pygame''])))
     = [''pip install pygame'', ''pip install numpy'', ''pip install pygame'']"
    using t [THEN conjunct1] by simp
  have b: "fix_module_not_found_error shell_ok ''all tests passed'' = Returned []"
    by (rule t [THEN conjunct2, THEN conjunct1, rule_format, OF absent])
  from a b show ?thesis by (rule conjI)
qed

text \<open>
  Claim C1 as stated fails: in a report that names \<open>foo\<close>, \<open>bar\<close> and \<open>foo\<close> again, \<open>foo\<close>
  is installed twice; and a text with the pattern for \<open>foo\<close> and for \<open>bar\<close> but without
  the text \<open>ModuleNotFoundError\<close> leads to no installation at all.
\<close>

theorem fix_module_repeats_duplicates:
  "shell_commands (effects_of (fix_module_not_found_error shell_ok
      (report_of [''foo'', ''bar'', ''foo''])))
     = [''pip install foo'', ''pip install bar'', ''pip install foo''] \<and>
   shell_commands (effects_of (fix_module_not_found_error shell_ok
      (NO_MODULE @ ''foo'' @ [QUOTE] @ '' and '' @ NO_MODULE @ ''bar'' @ [QUOTE])))
     = []"
  by code_simp

end
